theory Spec2Isabelle
  imports Main
begin

section \<open>JavaScript values and primitives used by the processor\<close>

text \<open>
  A decoded record is a JSON value. Numbers are modelled as mathematical integers (the
  date parts, years and counters of the records); fractions and magnitudes beyond the
  exactly representable range of a double are outside the model. Strings are lists of
  characters, and white space is its ASCII part. An object is the list of its own
  properties in enumeration order (the order of \<^verbatim>\<open>for (const key in obj)\<close> and of
  \<^verbatim>\<open>JSON.stringify\<close>). Three kinds of property names are outside the model: the key
  \<^verbatim>\<open>__proto__\<close>, whose assignment changes the prototype instead of adding a
  property; keys that are array indices, which JavaScript enumerates first; and the key
  \<^verbatim>\<open>toString\<close> in an object that stands where a date part is expected, on which the
  conversion to a string raises.
\<close>

datatype json =
    JNull
  | JBool bool
  | JNum int
  | JStr string
  | JArr "json list"
  | JObj "(string \<times> json) list"

text \<open>\<^verbatim>\<open>Array.isArray(x)\<close>.\<close>

fun is_array :: "json \<Rightarrow> bool" where
  "is_array (JArr _) = True"
| "is_array _ = False"

text \<open>JavaScript truthiness of a JSON value.\<close>

fun truthy :: "json \<Rightarrow> bool" where
  "truthy JNull = False"
| "truthy (JBool b) = b"
| "truthy (JNum n) = (n \<noteq> 0)"
| "truthy (JStr s) = (s \<noteq> [])"
| "truthy (JArr _) = True"
| "truthy (JObj _) = True"

subsection \<open>Objects: property read, assignment and deletion\<close>

text \<open>\<^verbatim>\<open>obj[k]\<close>: the value of an own property, or \<open>None\<close> for \<^verbatim>\<open>undefined\<close>.\<close>

primrec obj_get :: "(string \<times> json) list \<Rightarrow> string \<Rightarrow> json option" where
  "obj_get [] k = None"
| "obj_get (p # ps) k = (if fst p = k then Some (snd p) else obj_get ps k)"

text \<open>\<^verbatim>\<open>obj[k] = v\<close>: an existing property keeps its place in the enumeration order,
  a new one is added last.\<close>

primrec obj_set :: "(string \<times> json) list \<Rightarrow> string \<Rightarrow> json \<Rightarrow> (string \<times> json) list" where
  "obj_set [] k v = [(k, v)]"
| "obj_set (p # ps) k v = (if fst p = k then (k, v) # ps else p # obj_set ps k v)"

text \<open>\<^verbatim>\<open>delete obj[k]\<close>.\<close>

definition obj_del :: "(string \<times> json) list \<Rightarrow> string \<Rightarrow> (string \<times> json) list" where
  "obj_del obj k = filter (\<lambda>p. fst p \<noteq> k) obj"

text \<open>The keys of an object, in enumeration order.\<close>

definition obj_keys :: "(string \<times> json) list \<Rightarrow> string list" where
  "obj_keys obj = map fst obj"

subsection \<open>Strings\<close>

definition is_digit :: "char \<Rightarrow> bool" where
  "is_digit c = (c \<in> set ''0123456789'')"

text \<open>White space as \<^verbatim>\<open>trim\<close> and \<^verbatim>\<open>parseInt\<close> skip it (the ASCII part:
  tab, line feed, vertical tab, form feed, carriage return, space).\<close>

definition is_space :: "char \<Rightarrow> bool" where
  "is_space c = (c \<in> set [CHR 0x09, CHR 0x0A, CHR 0x0B, CHR 0x0C, CHR 0x0D, CHR '' ''])"

definition trim :: "string \<Rightarrow> string" where
  "trim s = rev (dropWhile is_space (rev (dropWhile is_space s)))"

definition startsWith :: "string \<Rightarrow> string \<Rightarrow> bool" where
  "startsWith s p = (take (length p) s = p)"

definition endsWith :: "string \<Rightarrow> string \<Rightarrow> bool" where
  "endsWith s p = (length p \<le> length s \<and> drop (length s - length p) s = p)"

text \<open>\<^verbatim>\<open>hay.includes(needle)\<close>.\<close>

fun includes_str :: "string \<Rightarrow> string \<Rightarrow> bool" where
  "includes_str [] needle = (needle = [])"
| "includes_str (c # cs) needle = (startsWith (c # cs) needle \<or> includes_str cs needle)"

text \<open>\<^verbatim>\<open>s.padStart(n, '0')\<close>.\<close>

definition padStart :: "nat \<Rightarrow> string \<Rightarrow> string" where
  "padStart n s = replicate (n - length s) (CHR ''0'') @ s"

text \<open>\<^verbatim>\<open>s.split(sep)[0]\<close> for a one-character separator.\<close>

definition split_first :: "char \<Rightarrow> string \<Rightarrow> string" where
  "split_first sep s = takeWhile (\<lambda>c. c \<noteq> sep) s"

subsection \<open>Numbers and strings\<close>

definition digit_char :: "nat \<Rightarrow> char" where
  "digit_char d = ''0123456789'' ! d"

definition digit_val :: "char \<Rightarrow> nat" where
  "digit_val c = length (takeWhile (\<lambda>d. d \<noteq> c) ''0123456789'')"

text \<open>\<^verbatim>\<open>String(n)\<close> for an integer \<open>n\<close>.\<close>

fun show_nat :: "nat \<Rightarrow> string" where
  "show_nat n = (if n < 10 then [digit_char n] else show_nat (n div 10) @ [digit_char (n mod 10)])"

declare show_nat.simps [simp del]

definition show_int :: "int \<Rightarrow> string" where
  "show_int i = (if i < 0 then CHR ''-'' # show_nat (nat (- i)) else show_nat (nat i))"

definition digits_val :: "string \<Rightarrow> nat" where
  "digits_val ds = foldl (\<lambda>acc c. 10 * acc + digit_val c) 0 ds"

text \<open>\<^verbatim>\<open>parseInt(s, 10)\<close> on a string: leading white space is skipped, one sign is
  read, then the longest run of decimal digits; \<open>None\<close> is \<^verbatim>\<open>NaN\<close>.\<close>

definition parseInt_str :: "string \<Rightarrow> int option" where
  "parseInt_str inputString =
     (let s = dropWhile is_space inputString;
          neg = (s \<noteq> [] \<and> hd s = CHR ''-'');
          s' = (if s \<noteq> [] \<and> (hd s = CHR ''-'' \<or> hd s = CHR ''+'') then tl s else s);
          z = takeWhile is_digit s'
      in if z = [] then None
         else Some (if neg then - int (digits_val z) else int (digits_val z)))"

text \<open>\<^verbatim>\<open>arr.join(',')\<close> on strings.\<close>

fun join_comma :: "string list \<Rightarrow> string" where
  "join_comma [] = []"
| "join_comma [s] = s"
| "join_comma (s # t # ss) = s @ '','' @ join_comma (t # ss)"

text \<open>\<^verbatim>\<open>String(v)\<close>, the conversion \<^verbatim>\<open>parseInt\<close> applies to its argument: an array is
  its elements joined by commas, with \<^verbatim>\<open>null\<close> elements as empty strings.\<close>

fun js_ToString :: "json \<Rightarrow> string" where
  "js_ToString JNull = ''null''"
| "js_ToString (JBool b) = (if b then ''true'' else ''false'')"
| "js_ToString (JNum n) = show_int n"
| "js_ToString (JStr s) = s"
| "js_ToString (JArr xs) = join_comma (map (\<lambda>x. if x = JNull then [] else js_ToString x) xs)"
| "js_ToString (JObj _) = ''[object Object]''"

text \<open>\<^verbatim>\<open>parseInt(v, 10)\<close> on a value read from an array; \<open>None\<close> as argument is
  \<^verbatim>\<open>undefined\<close>, whose string has no digits.\<close>

definition parseInt_val :: "json option \<Rightarrow> int option" where
  "parseInt_val v = (case v of None \<Rightarrow> None | Some x \<Rightarrow> parseInt_str (js_ToString x))"

text \<open>\<^verbatim>\<open>arr[i]\<close>: \<^verbatim>\<open>undefined\<close> beyond the end.\<close>

definition nth_opt :: "'a list \<Rightarrow> nat \<Rightarrow> 'a option" where
  "nth_opt xs i = (if i < length xs then Some (xs ! i) else None)"

section \<open>The record transformer (processor.js)\<close>

subsection \<open>cleanNullValues\<close>

text \<open>The keys whose \<^verbatim>\<open>null\<close> value becomes the empty string:
  \<^verbatim>\<open>key.includes('colidentifier') || (key.startsWith('*') && key.endsWith('*'))\<close>.\<close>

definition cannot_be_null :: "string \<Rightarrow> bool" where
  "cannot_be_null key =
     (includes_str key ''colidentifier'' \<or> (startsWith key ''*'' \<and> endsWith key ''*''))"

fun cleanNullValues :: "json \<Rightarrow> json" where
  "cleanNullValues (JArr obj) =
     JArr (map cleanNullValues (filter (\<lambda>item. item \<noteq> JNull) obj))"
| "cleanNullValues (JObj obj) =
     JObj (foldl (\<lambda>result (key, v).
              if v = JNull then
                (if cannot_be_null key then obj_set result key (JStr []) else result)
              else obj_set result key (cleanNullValues v)) [] obj)"
| "cleanNullValues v = v"

subsection \<open>fixBigQueryIssues\<close>

text \<open>The test \<^verbatim>\<open>/^\d+$/\<close>: a non-empty string of decimal digits.\<close>

definition all_digits :: "string \<Rightarrow> bool" where
  "all_digits s = (s \<noteq> [] \<and> list_all is_digit s)"

text \<open>The handling of the \<^verbatim>\<open>year\<close> property of one object (the object is changed
  in place in the source; the model returns the changed property list).\<close>

definition move_to_year_string :: "(string \<times> json) list \<Rightarrow> json \<Rightarrow> (string \<times> json) list" where
  "move_to_year_string obj yearValue = obj_del (obj_set obj ''year_string'' yearValue) ''year''"

definition fix_year :: "(string \<times> json) list \<Rightarrow> (string \<times> json) list" where
  "fix_year obj =
     (case obj_get obj ''year'' of
        None \<Rightarrow> obj
      | Some yearValue \<Rightarrow>
          (case yearValue of
             JStr s \<Rightarrow>
               if \<not> all_digits s then move_to_year_string obj yearValue
               else (case parseInt_str s of
                       Some yearInt \<Rightarrow> obj_set obj ''year'' (JNum yearInt)
                     | None \<Rightarrow> move_to_year_string obj yearValue)
           | _ \<Rightarrow> obj))"

subsection \<open>replaceKeyDashes\<close>

text \<open>\<^verbatim>\<open>key.replace(/-/g, '_')\<close>.\<close>

definition replace_dashes :: "string \<Rightarrow> string" where
  "replace_dashes key = map (\<lambda>c. if c = CHR ''-'' then CHR ''_'' else c) key"

fun replaceKeyDashes :: "json \<Rightarrow> json" where
  "replaceKeyDashes (JArr obj) = JArr (map replaceKeyDashes obj)"
| "replaceKeyDashes (JObj obj) =
     JObj (foldl (\<lambda>result (key, v). obj_set result (replace_dashes key) (replaceKeyDashes v)) [] obj)"
| "replaceKeyDashes v = v"

text \<open>Values of an object after a property assignment or deletion: bounds used by the
  termination proofs of the passes that change an object in place before they descend.\<close>

lemma obj_set_subset: "set (obj_set obj k v) \<subseteq> insert (k, v) (set obj)"
  by (induction obj) auto

lemma obj_del_subset: "set (obj_del obj k) \<subseteq> set obj"
  by (auto simp: obj_del_def)

lemma size_obj_member:
  "(k, v) \<in> set obj \<Longrightarrow> size v < Suc (size_list (size_prod (\<lambda>x. 0) size) obj)"
  by (induction obj) auto

lemma fix_year_values:
  "(k, v) \<in> set (fix_year obj) \<Longrightarrow> (\<exists>k'. (k', v) \<in> set obj) \<or> size v = 0"
  using obj_set_subset obj_del_subset
  by (fastforce simp: fix_year_def move_to_year_string_def
      split: option.splits json.splits if_splits)

text \<open>The source changes the object in place and then visits every property value that
  is an object or an array; the model maps over the changed property list.\<close>

function fixBigQueryIssues :: "json \<Rightarrow> json" where
  "fixBigQueryIssues (JArr obj) = JArr (map fixBigQueryIssues obj)"
| "fixBigQueryIssues (JObj obj) =
     JObj (map (\<lambda>(key, v). (key, fixBigQueryIssues v)) (fix_year obj))"
| "fixBigQueryIssues JNull = JNull"
| "fixBigQueryIssues (JBool b) = JBool b"
| "fixBigQueryIssues (JNum n) = JNum n"
| "fixBigQueryIssues (JStr s) = JStr s"
  by pat_completeness auto
termination
proof (relation "measure size", goal_cases)
  case 1
  show ?case by simp
next
  case (2 obj x)
  then show ?case by (simp add: less_Suc_eq_le size_list_estimation')
next
  case (3 obj x key v)
  then show ?case
    using fix_year_values[of key v obj] size_obj_member by fastforce
qed

subsection \<open>flattenNestedArrays\<close>

text \<open>The loop that concatenates the sub-arrays of an array and keeps its other items
  (also what \<^verbatim>\<open>[].concat(...value)\<close> computes).\<close>

primrec concat_sub :: "json list \<Rightarrow> json list" where
  "concat_sub [] = []"
| "concat_sub (item # rest) =
     (case item of JArr sub \<Rightarrow> sub | _ \<Rightarrow> [item]) @ concat_sub rest"

lemma size_concat_sub:
  "x \<in> set (concat_sub obj) \<Longrightarrow> size x < Suc (size_list size obj)"
proof (induction obj)
  case Nil
  then show ?case by simp
next
  case (Cons item rest)
  show ?case
  proof (cases "x \<in> set (concat_sub rest)")
    case True
    with Cons.IH show ?thesis by simp
  next
    case False
    with Cons.prems have "x \<in> set (case item of JArr sub \<Rightarrow> sub | _ \<Rightarrow> [item])"
      by simp
    then have "size x \<le> size item"
      by (cases item) (auto simp: less_Suc_eq_le size_list_estimation' intro: less_imp_le)
    then show ?thesis by simp
  qed
qed

function flattenNestedArrays :: "string option \<Rightarrow> json \<Rightarrow> json" where
  "flattenNestedArrays parentKey (JArr obj) =
     (if list_ex is_array obj then
        (if parentKey = Some ''date-parts'' then
           (case obj of [JArr inner] \<Rightarrow> JArr inner | _ \<Rightarrow> JArr obj)
         else JArr (map (flattenNestedArrays None) (concat_sub obj)))
      else JArr (map (flattenNestedArrays None) obj))"
| "flattenNestedArrays parentKey (JObj obj) =
     JObj (foldl (\<lambda>result (key, v).
              obj_set result key (flattenNestedArrays (Some key) v)) [] obj)"
| "flattenNestedArrays parentKey JNull = JNull"
| "flattenNestedArrays parentKey (JBool b) = JBool b"
| "flattenNestedArrays parentKey (JNum n) = JNum n"
| "flattenNestedArrays parentKey (JStr s) = JStr s"
  by pat_completeness auto
termination
proof (relation "measure (\<lambda>(parentKey, v). size v)", goal_cases)
  case 1
  show ?case by simp
next
  case (2 parentKey obj x)
  then show ?case using size_concat_sub[of x obj] by simp
next
  case (3 parentKey obj x)
  then show ?case by (simp add: less_Suc_eq_le size_list_estimation')
next
  case 4
  then show ?case by (auto dest: size_obj_member)
qed

subsection \<open>convertDatePartsToISOString and processDateFields\<close>

text \<open>The unwrapping of a one-element wrapper around an array, done before each
  conversion (\<^verbatim>\<open>dateParts.length === 1 && Array.isArray(dateParts[0])\<close>).\<close>

definition unwrap_date_parts :: "json \<Rightarrow> json" where
  "unwrap_date_parts dateParts =
     (case dateParts of
        JArr dps \<Rightarrow> (case dps of [JArr inner] \<Rightarrow> JArr inner | _ \<Rightarrow> dateParts)
      | _ \<Rightarrow> dateParts)"

text \<open>\<open>None\<close> is the source's \<^verbatim>\<open>null\<close> result.\<close>

definition convertDatePartsToISOString :: "json \<Rightarrow> string option" where
  "convertDatePartsToISOString dateParts =
     (case dateParts of
        JArr dps \<Rightarrow>
          if dps = [] then None
          else
            (let parts = (case dps of [JArr inner] \<Rightarrow> inner | _ \<Rightarrow> dps);
                 year = nth_opt parts 0;
                 month = (if length parts > 1 then nth_opt parts 1 else Some (JNum 1));
                 day = (if length parts > 2 then nth_opt parts 2 else Some (JNum 1));
                 yearNum = parseInt_val year;
                 monthNum = parseInt_val month;
                 dayNum = parseInt_val day
             in case yearNum of
                  None \<Rightarrow> None
                | Some y \<Rightarrow>
                    Some (padStart 4 (show_int y) @ ''-''
                          @ padStart 2 (show_int (case monthNum of None \<Rightarrow> 1 | Some m \<Rightarrow> m)) @ ''-''
                          @ padStart 2 (show_int (case dayNum of None \<Rightarrow> 1 | Some d \<Rightarrow> d))))
      | _ \<Rightarrow> None)"

text \<open>The three places of \<^verbatim>\<open>processDateFields\<close> that convert a date-parts value: the
  wrapper is removed, then the parts are converted.\<close>

definition iso_of_date_parts :: "json \<Rightarrow> string option" where
  "iso_of_date_parts dateParts = convertDatePartsToISOString (unwrap_date_parts dateParts)"

text \<open>The object's own \<^verbatim>\<open>date-parts\<close> property: a \<^verbatim>\<open>date\<close> property is written when
  the conversion gives a string, and \<^verbatim>\<open>date-parts\<close> is deleted either way.\<close>

definition date_parts_step :: "(string \<times> json) list \<Rightarrow> (string \<times> json) list" where
  "date_parts_step obj =
     (case obj_get obj ''date-parts'' of
        None \<Rightarrow> obj
      | Some dateParts \<Rightarrow>
          obj_del (case iso_of_date_parts dateParts of
                     Some isoDate \<Rightarrow> obj_set obj ''date'' (JStr isoDate)
                   | None \<Rightarrow> obj) ''date-parts'')"

definition dateFields :: "string list" where
  "dateFields = [''published'', ''created'', ''deposited'', ''indexed'', ''issued'',
                 ''published-online'', ''published-print'']"

text \<open>One round of the loop over \<^verbatim>\<open>dateFields\<close>. The property must be an object with a
  truthy \<^verbatim>\<open>date-parts\<close> (an array value of the field has no such property).\<close>

definition date_field_step :: "(string \<times> json) list \<Rightarrow> string \<Rightarrow> (string \<times> json) list" where
  "date_field_step obj field =
     (case obj_get obj field of
        Some (JObj fieldObj) \<Rightarrow>
          (case obj_get fieldObj ''date-parts'' of
             Some dateParts \<Rightarrow>
               if truthy dateParts then
                 (case iso_of_date_parts dateParts of
                    Some isoDate \<Rightarrow> obj_set obj field (JStr isoDate)
                  | None \<Rightarrow> obj_del obj field)
               else obj
           | None \<Rightarrow> obj)
      | _ \<Rightarrow> obj)"

text \<open>One entry of the \<^verbatim>\<open>license\<close> array: only an object whose \<^verbatim>\<open>start\<close> is an
  object with a truthy \<^verbatim>\<open>date-parts\<close> is changed.\<close>

definition license_step :: "json \<Rightarrow> json" where
  "license_step license =
     (case license of
        JObj licObj \<Rightarrow>
          (case obj_get licObj ''start'' of
             Some (JObj startObj) \<Rightarrow>
               (case obj_get startObj ''date-parts'' of
                  Some dateParts \<Rightarrow>
                    if truthy dateParts then
                      (case iso_of_date_parts dateParts of
                         Some isoDate \<Rightarrow> JObj (obj_set licObj ''start'' (JStr isoDate))
                       | None \<Rightarrow> JObj (obj_del licObj ''start''))
                    else license
                | None \<Rightarrow> license)
           | _ \<Rightarrow> license)
      | _ \<Rightarrow> license)"

definition license_dates :: "(string \<times> json) list \<Rightarrow> (string \<times> json) list" where
  "license_dates obj =
     (case obj_get obj ''license'' of
        Some (JArr licenses) \<Rightarrow> obj_set obj ''license'' (JArr (map license_step licenses))
      | _ \<Rightarrow> obj)"

text \<open>What \<^verbatim>\<open>processDateFields\<close> does to one object before it descends into its
  property values.\<close>

definition date_local :: "(string \<times> json) list \<Rightarrow> (string \<times> json) list" where
  "date_local obj = license_dates (foldl date_field_step (date_parts_step obj) dateFields)"

text \<open>Termination of \<^verbatim>\<open>processDateFields\<close>: every property value of the changed
  object is a new string or no larger than a property value of the object before.\<close>

definition values_bounded :: "(string \<times> json) list \<Rightarrow> (string \<times> json) list \<Rightarrow> bool" where
  "values_bounded obj' obj =
     (\<forall>p \<in> set obj'. size (snd p) = 0 \<or> (\<exists>q \<in> set obj. size (snd p) \<le> size (snd q)))"

lemma values_bounded_refl: "values_bounded obj obj"
  by (auto simp: values_bounded_def)

lemma values_bounded_trans:
  assumes cb: "values_bounded c b" and ba: "values_bounded b a"
  shows "values_bounded c a"
proof (unfold values_bounded_def, intro ballI)
  fix p
  assume p: "p \<in> set c"
  from cb p consider "size (snd p) = 0" | q where "q \<in> set b" "size (snd p) \<le> size (snd q)"
    unfolding values_bounded_def by fastforce
  then show "size (snd p) = 0 \<or> (\<exists>q \<in> set a. size (snd p) \<le> size (snd q))"
  proof cases
    case 1
    then show ?thesis by simp
  next
    case 2
    from ba 2(1) consider "size (snd q) = 0" | r where "r \<in> set a" "size (snd q) \<le> size (snd r)"
      unfolding values_bounded_def by fastforce
    then show ?thesis
    proof cases
      case 1
      with 2(2) show ?thesis by simp
    next
      case 2
      with \<open>size (snd p) \<le> size (snd q)\<close> show ?thesis
        by (meson order_trans)
    qed
  qed
qed

lemma values_bounded_set:
  "size v = 0 \<Longrightarrow> values_bounded (obj_set obj k v) obj"
  using obj_set_subset[of obj k v] by (fastforce simp: values_bounded_def)

lemma values_bounded_set_le:
  "(k0, v0) \<in> set obj \<Longrightarrow> size v \<le> size v0 \<Longrightarrow> values_bounded (obj_set obj k v) obj"
  using obj_set_subset[of obj k v] by (fastforce simp: values_bounded_def)

lemma values_bounded_del: "values_bounded (obj_del obj k) obj"
  using obj_del_subset[of obj k] by (fastforce simp: values_bounded_def)

lemma obj_get_member: "obj_get obj k = Some v \<Longrightarrow> (k, v) \<in> set obj"
  by (induction obj) (auto split: if_splits)

lemma values_bounded_date_parts_step: "values_bounded (date_parts_step obj) obj"
  by (auto simp: date_parts_step_def values_bounded_refl split: option.splits
      intro: values_bounded_trans[OF values_bounded_del values_bounded_set] values_bounded_del)

lemma values_bounded_date_field_step: "values_bounded (date_field_step obj field) obj"
  by (auto simp: date_field_step_def values_bounded_refl split: option.splits json.splits
      intro: values_bounded_set values_bounded_del)

lemma values_bounded_date_fields:
  "values_bounded (foldl date_field_step obj fields) obj"
proof (induction fields arbitrary: obj)
  case Nil
  show ?case by (simp add: values_bounded_refl)
next
  case (Cons f fields)
  show ?case
    using Cons.IH[of "date_field_step obj f"] values_bounded_date_field_step[of obj f]
    by (auto intro: values_bounded_trans)
qed

lemma size_list_obj_set:
  "obj_get obj k = Some v0 \<Longrightarrow> size v \<le> size v0 \<Longrightarrow>
   size_list (size_prod (\<lambda>x. 0) size) (obj_set obj k v) \<le> size_list (size_prod (\<lambda>x. 0) size) obj"
  by (induction obj) (auto split: if_splits)

lemma size_list_obj_del:
  "size_list (size_prod (\<lambda>x. 0) size) (obj_del obj k) \<le> size_list (size_prod (\<lambda>x. 0) size) obj"
  by (induction obj) (auto simp: obj_del_def)

lemma size_license_step: "size (license_step license) \<le> size license"
  by (auto simp: license_step_def size_list_obj_del split: json.splits option.splits
      intro!: size_list_obj_set)

lemma size_list_license_steps:
  "size_list size (map license_step licenses) \<le> size_list size licenses"
  by (induction licenses) (auto simp: size_license_step add_mono)

lemma values_bounded_license_dates: "values_bounded (license_dates obj) obj"
proof (cases "\<exists>licenses. obj_get obj ''license'' = Some (JArr licenses)")
  case True
  then obtain licenses where l: "obj_get obj ''license'' = Some (JArr licenses)" by blast
  have "size (JArr (map license_step licenses)) \<le> size (JArr licenses)"
    using size_list_license_steps[of licenses] by simp
  with l show ?thesis
    by (auto simp: license_dates_def intro: values_bounded_set_le[OF obj_get_member[OF l]])
next
  case False
  then show ?thesis
    by (auto simp: license_dates_def values_bounded_refl split: option.splits json.splits)
qed

lemma values_bounded_date_local: "values_bounded (date_local obj) obj"
  unfolding date_local_def
  by (blast intro: values_bounded_trans values_bounded_license_dates
      values_bounded_date_fields values_bounded_date_parts_step)

lemma date_local_values:
  "(k, v) \<in> set (date_local obj) \<Longrightarrow> size v < Suc (size_list (size_prod (\<lambda>x. 0) size) obj)"
proof -
  assume m: "(k, v) \<in> set (date_local obj)"
  with values_bounded_date_local[of obj]
  have "size v = 0 \<or> (\<exists>q \<in> set obj. size v \<le> size (snd q))"
    by (fastforce simp: values_bounded_def)
  then show ?thesis
  proof
    assume "size v = 0" then show ?thesis by simp
  next
    assume "\<exists>q \<in> set obj. size v \<le> size (snd q)"
    then obtain k' v' where "(k', v') \<in> set obj" "size v \<le> size v'" by auto
    then show ?thesis using size_obj_member[of k' v' obj] by simp
  qed
qed

text \<open>As in \<^verbatim>\<open>fixBigQueryIssues\<close>, the object is changed in place and its property
  values are visited afterwards.\<close>

function processDateFields :: "json \<Rightarrow> json" where
  "processDateFields (JArr obj) = JArr (map processDateFields obj)"
| "processDateFields (JObj obj) =
     JObj (map (\<lambda>(key, v). (key, processDateFields v)) (date_local obj))"
| "processDateFields JNull = JNull"
| "processDateFields (JBool b) = JBool b"
| "processDateFields (JNum n) = JNum n"
| "processDateFields (JStr s) = JStr s"
  by pat_completeness auto
termination
proof (relation "measure size", goal_cases)
  case 1
  show ?case by simp
next
  case (2 obj x)
  then show ?case by (simp add: less_Suc_eq_le size_list_estimation')
next
  case 3
  then show ?case by (auto dest: date_local_values)
qed

subsection \<open>Serialization and the corrective pass\<close>

definition hex_char :: "nat \<Rightarrow> char" where
  "hex_char d = ''0123456789abcdef'' ! d"

text \<open>\<^verbatim>\<open>JSON.stringify\<close> of a string: the quote, the backslash and the control
  characters are escaped.\<close>

definition escape_char :: "char \<Rightarrow> string" where
  "escape_char c =
     (if c = CHR 0x22 then [CHR 0x5C, CHR 0x22]
      else if c = CHR 0x5C then [CHR 0x5C, CHR 0x5C]
      else if c = CHR 0x08 then [CHR 0x5C, CHR ''b'']
      else if c = CHR 0x0C then [CHR 0x5C, CHR ''f'']
      else if c = CHR 0x0A then [CHR 0x5C, CHR ''n'']
      else if c = CHR 0x0D then [CHR 0x5C, CHR ''r'']
      else if c = CHR 0x09 then [CHR 0x5C, CHR ''t'']
      else if (of_char c :: nat) < 32 then
        [CHR 0x5C, CHR ''u'', CHR ''0'', CHR ''0'',
         hex_char (of_char c div 16), hex_char (of_char c mod 16)]
      else [c])"

definition quote_json :: "string \<Rightarrow> string" where
  "quote_json s = CHR 0x22 # concat (map escape_char s) @ [CHR 0x22]"

fun stringify :: "json \<Rightarrow> string" where
  "stringify JNull = ''null''"
| "stringify (JBool b) = (if b then ''true'' else ''false'')"
| "stringify (JNum n) = show_int n"
| "stringify (JStr s) = quote_json s"
| "stringify (JArr xs) = ''['' @ join_comma (map stringify xs) @ '']''"
| "stringify (JObj obj) =
     ''{'' @ join_comma (map (\<lambda>(key, v). quote_json key @ '':'' @ stringify v) obj) @ ''}''"

text \<open>The corrective pass: \<^verbatim>\<open>JSON.stringify\<close> with a replacer calls the replacer on a
  value before it serializes the value's elements, so an array that holds an array is
  replaced by \<^verbatim>\<open>[].concat(...value)\<close> and the elements of the replacement are visited
  in turn. Parsing the serialized text back gives the value itself.\<close>

function lastFix :: "json \<Rightarrow> json" where
  "lastFix (JArr xs) =
     JArr (map lastFix (if list_ex is_array xs then concat_sub xs else xs))"
| "lastFix (JObj obj) = JObj (map (\<lambda>(key, v). (key, lastFix v)) obj)"
| "lastFix JNull = JNull"
| "lastFix (JBool b) = JBool b"
| "lastFix (JNum n) = JNum n"
| "lastFix (JStr s) = JStr s"
  by pat_completeness auto
termination
proof (relation "measure size", goal_cases)
  case 1
  show ?case by simp
next
  case (2 xs x)
  then show ?case
    using size_concat_sub[of x xs]
    by (auto simp: less_Suc_eq_le size_list_estimation' split: if_splits)
next
  case 3
  then show ?case by (auto dest: size_obj_member)
qed

subsection \<open>The transformations of one record, in the order of the source\<close>

definition standardize :: "json \<Rightarrow> json" where
  "standardize obj =
     (let flattenedObj = flattenNestedArrays None obj;
          datedObj = processDateFields flattenedObj;
          fixedObj = fixBigQueryIssues datedObj;
          cleanedObj = cleanNullValues fixedObj
      in replaceKeyDashes cleanedObj)"

text \<open>The record whose serialization is written: the standardized record, or the
  result of the corrective pass when the serialized text contains \<^verbatim>\<open>[[\<close>.\<close>

definition output_record :: "json \<Rightarrow> json" where
  "output_record obj =
     (let standardizedObj = standardize obj;
          jsonStr = stringify standardizedObj
      in if includes_str jsonStr ''[['' then lastFix standardizedObj else standardizedObj)"


text \<open>An array that holds an array, anywhere in a value.\<close>

fun has_nested_array :: "json \<Rightarrow> bool" where
  "has_nested_array (JArr xs) = (list_ex is_array xs \<or> list_ex has_nested_array xs)"
| "has_nested_array (JObj obj) = list_ex (\<lambda>(key, v). has_nested_array v) obj"
| "has_nested_array v = False"

section \<open>The streaming file processor (processJsonlFile)\<close>

text \<open>The state of one file's processing: the two counters, the chunks handed to the
  stream's callback in order (the empty chunk for a skipped or failed line), and the
  writes to the debug log. The console messages (suppressed by \<^verbatim>\<open>quiet\<close>, which
  \<^verbatim>\<open>processFile\<close> always sets) are not modelled.\<close>

record proc_state =
  processedCount :: nat
  errorCount :: nat
  pushed :: "string list"
  debugLog :: "string list"

definition init_state :: "proc_state" where
  "init_state = \<lparr>processedCount = 0, errorCount = 0, pushed = [], debugLog = []\<rparr>"

text \<open>\<^verbatim>\<open>s.substring(0, n)\<close>.\<close>

definition substring0 :: "nat \<Rightarrow> string \<Rightarrow> string" where
  "substring0 n s = take n s"

subsection \<open>The debug capture of year values\<close>

text \<open>The capture group \<^verbatim>\<open>("[^"]*"|[^,\}]*)\<close> read at the start of a string: a quoted
  run when a closing quote follows, otherwise everything up to a comma or a closing
  brace.\<close>

definition year_group :: "string \<Rightarrow> string" where
  "year_group s =
     (case s of
        c # rest \<Rightarrow>
          if c = CHR 0x22 \<and> CHR 0x22 \<in> set rest
          then CHR 0x22 # takeWhile (\<lambda>d. d \<noteq> CHR 0x22) rest @ [CHR 0x22]
          else takeWhile (\<lambda>d. d \<noteq> CHR '','' \<and> d \<noteq> CHR ''}'') s
      | [] \<Rightarrow> [])"

definition year_key :: "string" where
  "year_key = [CHR 0x22] @ ''year'' @ [CHR 0x22]"

text \<open>What follows \<^verbatim>\<open>"year"\<close> in a match of \<^verbatim>\<open>\s*:\s*(...)\<close>: the text from the
  capture group on, or \<open>None\<close> when no colon follows.\<close>

definition after_colon :: "string \<Rightarrow> string option" where
  "after_colon s =
     (case dropWhile is_space s of
        d # r \<Rightarrow> if d = CHR '':'' then Some (dropWhile is_space r) else None
      | [] \<Rightarrow> None)"

lemma after_colon_length: "after_colon s = Some t \<Longrightarrow> length t \<le> length s"
proof -
  assume a: "after_colon s = Some t"
  then obtain r where r: "dropWhile is_space s = CHR '':'' # r" and t: "t = dropWhile is_space r"
    by (auto simp: after_colon_def split: list.splits if_splits)
  have "length t \<le> length r" using t by (simp add: length_dropWhile_le)
  moreover have "length (dropWhile is_space s) \<le> length s" by (rule length_dropWhile_le)
  ultimately show ?thesis using r by simp
qed

text \<open>The capture groups of all matches of
  \<^verbatim>\<open>/"year"\s*:\s*("[^"]*"|[^,\}]*)/g\<close>, left to right; the search goes on after the
  end of a match.\<close>

function year_matches :: "string \<Rightarrow> string list" where
  "year_matches [] = []"
| "year_matches (c # cs) =
     (if startsWith (c # cs) year_key then
        (case after_colon (drop (length year_key) (c # cs)) of
           Some t \<Rightarrow> year_group t # year_matches (drop (length (year_group t)) t)
         | None \<Rightarrow> year_matches cs)
      else year_matches cs)"
  by pat_completeness auto
termination
proof (relation "measure length", goal_cases)
  case 1
  show ?case by simp
next
  case (2 c cs)
  then show ?case by simp
next
  case (3 c cs t)
  then show ?case
    using after_colon_length[of "drop (length year_key) (c # cs)" t]
    by (simp add: year_key_def)
next
  case 4
  then show ?case by simp
qed

text \<open>The test on a captured year value: it contains \<^verbatim>\<open>-\<close> or \<^verbatim>\<open>/\<close>, or it is quoted
  and is not a quoted run of digits.\<close>

definition problematic_year :: "string \<Rightarrow> bool" where
  "problematic_year yearValue =
     (CHR ''-'' \<in> set yearValue \<or> CHR ''/'' \<in> set yearValue \<or>
      (startsWith yearValue [CHR 0x22] \<and>
       \<not> (2 \<le> length yearValue \<and> last yearValue = CHR 0x22 \<and>
          all_digits (butlast (tl yearValue)))))"

definition year_debug :: "nat \<Rightarrow> string \<Rightarrow> string \<Rightarrow> string list" where
  "year_debug count lineStr result =
     (if includes_str lineStr (year_key @ '':'') then
        concat (map (\<lambda>yearValue.
          if problematic_year yearValue then
            [''Line '' @ show_nat count @ '': Found problematic year value: '' @ yearValue @ [CHR 0x0A],
             ''Original: '' @ substring0 200 lineStr @ ''...'' @ [CHR 0x0A],
             ''Processed: '' @ substring0 200 result @ ''...'' @ [CHR 0x0A, CHR 0x0A]]
          else []) (year_matches lineStr))
      else [])"

subsection \<open>One line\<close>

text \<open>The \<^verbatim>\<open>transform\<close> callback. \<open>parse\<close> stands for \<^verbatim>\<open>JSON.parse\<close>: the decoded
  value, or the message of the error it throws. The \<^verbatim>\<open>catch\<close> block is the branch of
  a failed parse: on the values of the model the transformations raise nothing.\<close>

definition transform ::
  "bool \<Rightarrow> (string \<Rightarrow> string + json) \<Rightarrow> proc_state \<Rightarrow> string \<Rightarrow> proc_state" where
  "transform debugMode parse st line =
     (let lineStr = trim line in
      if lineStr = [] then st\<lparr>pushed := pushed st @ [[]]\<rparr>
      else
        (case parse lineStr of
           Inl message \<Rightarrow>
             st\<lparr>errorCount := errorCount st + 1,
                pushed := pushed st @ [[]],
                debugLog := debugLog st @
                  (if debugMode then
                     [''ERROR at line '' @ show_nat (processedCount st + 1) @ '': '' @ message @ [CHR 0x0A],
                      ''Line content: '' @ line @ [CHR 0x0A, CHR 0x0A]]
                   else [])\<rparr>
         | Inr obj \<Rightarrow>
             (let standardizedObj = standardize obj;
                  jsonStr = stringify standardizedObj
              in if includes_str jsonStr ''[['' then
                   (let result = stringify (lastFix standardizedObj) @ [CHR 0x0A]
                    in st\<lparr>processedCount := processedCount st + 1,
                          pushed := pushed st @ [result],
                          debugLog := debugLog st @
                            (if debugMode then
                               [''WARNING: Line '' @ show_nat (processedCount st)
                                  @ '' may still contain nested arrays'' @ [CHR 0x0A],
                                ''JSON: '' @ substring0 500 jsonStr @ ''...'' @ [CHR 0x0A, CHR 0x0A],
                                ''After final fix: '' @ substring0 500 result @ ''...''
                                  @ [CHR 0x0A, CHR 0x0A]]
                             else [])\<rparr>)
                 else
                   (let result = jsonStr @ [CHR 0x0A]
                    in st\<lparr>processedCount := processedCount st + 1,
                          pushed := pushed st @ [result],
                          debugLog := debugLog st @
                            (if debugMode then year_debug (processedCount st) lineStr result
                             else [])\<rparr>))))"

text \<open>The lines of a file, in order (readline delivers them one by one).\<close>

definition process_lines ::
  "bool \<Rightarrow> (string \<Rightarrow> string + json) \<Rightarrow> proc_state \<Rightarrow> string list \<Rightarrow> proc_state" where
  "process_lines debugMode parse st lines = foldl (transform debugMode parse) st lines"

subsection \<open>One file\<close>

text \<open>The streams of \<^verbatim>\<open>processJsonlFile\<close>: the file read stream, the gunzip stream
  (for a \<^verbatim>\<open>.gz\<close> path), readline, the three streams of the pipeline, and the debug
  log (in debug mode). A run is the list of lines that readline delivers and the way the
  run ends: the output stream finishes, or one of the streams emits \<^verbatim>\<open>error\<close>.\<close>

datatype stream = FileRead | Gunzip | Readline | Transform | Gzip | FileWrite | DebugLog

datatype ending = Completed | StreamError stream string

text \<open>How the promise of \<^verbatim>\<open>processJsonlFile\<close> ends. \<open>Uncaught\<close>: an \<^verbatim>\<open>error\<close> event
  on a stream without a listener for it, which Node.js throws as an uncaught exception
  that ends the process.\<close>

datatype outcome = Resolved nat nat | Rejected string | Uncaught string

text \<open>The stream that the variable \<^verbatim>\<open>inputStream\<close> denotes, on which the input error
  handler is registered: for a \<^verbatim>\<open>.gz\<close> path it is the result of
  \<^verbatim>\<open>fs.createReadStream(inputPath).pipe(zlib.createGunzip())\<close>, which is the gunzip
  stream (\<^verbatim>\<open>pipe\<close> returns its destination and forwards no errors).\<close>

definition inputStream :: "string \<Rightarrow> stream" where
  "inputStream inputPath = (if endsWith inputPath ''.gz'' then Gunzip else FileRead)"

text \<open>The streams given to \<^verbatim>\<open>pipeline\<close>, whose callback receives their errors.\<close>

definition pipeline_streams :: "stream list" where
  "pipeline_streams = [Transform, Gzip, FileWrite]"

text \<open>The result of a run: how the promise ends, the destination file afterwards
  (\<open>None\<close> when it has been removed, otherwise the text handed to the compressor for
  it) and the debug log. The pipeline callback removes the file and rejects; the
  listeners on \<^verbatim>\<open>inputStream\<close> and on readline end the streams and reject, and leave
  the file; no other stream has a listener for \<^verbatim>\<open>error\<close>.\<close>

record file_run =
  promise :: outcome
  artifact :: "string option"
  debug_sidecar :: "string list"

definition processJsonlFile ::
  "string \<Rightarrow> bool \<Rightarrow> (string \<Rightarrow> string + json) \<Rightarrow> string list \<Rightarrow> ending \<Rightarrow> file_run" where
  "processJsonlFile inputPath debugMode parse lines e =
     (let st = process_lines debugMode parse
                 (init_state\<lparr>debugLog :=
                    (if debugMode then [''Debug log for '' @ inputPath @ [CHR 0x0A]] else [])\<rparr>)
                 lines
      in case e of
           Completed \<Rightarrow>
             \<lparr>promise = Resolved (processedCount st) (errorCount st),
              artifact = Some (concat (pushed st)),
              debug_sidecar = debugLog st\<rparr>
         | StreamError s message \<Rightarrow>
             if s \<in> set pipeline_streams then
               \<lparr>promise = Rejected message, artifact = None, debug_sidecar = debugLog st\<rparr>
             else if s = inputStream inputPath \<or> s = Readline then
               \<lparr>promise = Rejected message, artifact = Some (concat (pushed st)),
                debug_sidecar = debugLog st\<rparr>
             else
               \<lparr>promise = Uncaught message, artifact = Some (concat (pushed st)),
                debug_sidecar = debugLog st\<rparr>)"

section \<open>The batch orchestrator (process-all.js)\<close>

subsection \<open>validateGzipFile\<close>

text \<open>What reading a file back through gunzip gives, as the events that reach the
  listeners of \<^verbatim>\<open>validateGzipFile\<close>, in order.\<close>

datatype gz_event = ReadFailed string | GunzipFailed string | Data | End

datatype validation = Pass | Fail string | Pending

text \<open>The first event that settles the promise decides; \<open>Pending\<close> when none does.
  Outside debug mode the first \<^verbatim>\<open>data\<close> event resolves the promise and destroys the
  streams.\<close>

fun validate_events :: "bool \<Rightarrow> bool \<Rightarrow> gz_event list \<Rightarrow> validation" where
  "validate_events debugMode dataReceived [] = Pending"
| "validate_events debugMode dataReceived (ReadFailed m # rest) =
     Fail (''Failed to read file: '' @ m)"
| "validate_events debugMode dataReceived (GunzipFailed m # rest) =
     Fail (''Invalid gzip file: '' @ m)"
| "validate_events debugMode dataReceived (Data # rest) =
     (if \<not> debugMode then Pass else validate_events debugMode True rest)"
| "validate_events debugMode dataReceived (End # rest) =
     (if \<not> dataReceived then Fail ''Empty gzip file'' else Pass)"

definition validateGzipFile :: "bool \<Rightarrow> gz_event list \<Rightarrow> validation" where
  "validateGzipFile debugMode events = validate_events debugMode False events"

subsection \<open>processFile\<close>

text \<open>The result of a job: the returned object, or the process ended by an uncaught
  exception, or a validation that never settles.\<close>

datatype job_result = Succeeded nat nat | Failed | Crashed | Hung

record job =
  job_result :: job_result
  job_artifact :: "string option"

text \<open>\<open>read_back\<close> stands for the file system and zlib: the events that reading the
  written artifact gives. The \<^verbatim>\<open>catch\<close> block removes the artifact when it exists.\<close>

definition processFile ::
  "bool \<Rightarrow> (string \<Rightarrow> string + json) \<Rightarrow> (string option \<Rightarrow> gz_event list) \<Rightarrow>
   string \<Rightarrow> string list \<Rightarrow> ending \<Rightarrow> job" where
  "processFile debugMode parse read_back inputPath lines e =
     (let run = processJsonlFile inputPath debugMode parse lines e
      in case promise run of
           Resolved processed errors \<Rightarrow>
             (case validateGzipFile debugMode (read_back (artifact run)) of
                Pass \<Rightarrow> \<lparr>job_result = Succeeded processed errors, job_artifact = artifact run\<rparr>
              | Fail m \<Rightarrow> \<lparr>job_result = Failed, job_artifact = None\<rparr>
              | Pending \<Rightarrow> \<lparr>job_result = Hung, job_artifact = artifact run\<rparr>)
         | Rejected m \<Rightarrow> \<lparr>job_result = Failed, job_artifact = None\<rparr>
         | Uncaught m \<Rightarrow> \<lparr>job_result = Crashed, job_artifact = artifact run\<rparr>)"

subsection \<open>getFilesToProcess\<close>

text \<open>\<^verbatim>\<open>path.basename\<close>: the last segment of a path, trailing separators dropped.\<close>

definition basename :: "string \<Rightarrow> string" where
  "basename p =
     rev (takeWhile (\<lambda>c. c \<noteq> CHR ''/'') (dropWhile (\<lambda>c. c = CHR ''/'') (rev p)))"

definition hex_val :: "char \<Rightarrow> nat" where
  "hex_val c =
     (if is_digit c then digit_val c
      else if c \<in> set ''abcdef'' then 10 + length (takeWhile (\<lambda>d. d \<noteq> c) ''abcdef'')
      else 10 + length (takeWhile (\<lambda>d. d \<noteq> c) ''ABCDEF''))"

definition is_hex_digit :: "char \<Rightarrow> bool" where
  "is_hex_digit c = (c \<in> set ''0123456789abcdefABCDEF'')"

text \<open>\<^verbatim>\<open>parseInt(s)\<close> without a radix: as with radix 10, except that a \<^verbatim>\<open>0x\<close> prefix
  selects radix 16.\<close>

definition parseInt_auto :: "string \<Rightarrow> int option" where
  "parseInt_auto inputString =
     (let s = dropWhile is_space inputString;
          neg = (s \<noteq> [] \<and> hd s = CHR ''-'');
          s' = (if s \<noteq> [] \<and> (hd s = CHR ''-'' \<or> hd s = CHR ''+'') then tl s else s);
          hex = (startsWith s' ''0x'' \<or> startsWith s' ''0X'');
          z = (if hex then takeWhile is_hex_digit (drop 2 s') else takeWhile is_digit s');
          n = (if hex then foldl (\<lambda>acc c. 16 * acc + hex_val c) 0 z else digits_val z)
      in if z = [] then None
         else Some (if neg then - int n else int n))"

text \<open>The comparator of the sort, \<^verbatim>\<open>numA - numB\<close>; a \<^verbatim>\<open>NaN\<close> result counts as 0.\<close>

definition compare_files :: "string \<Rightarrow> string \<Rightarrow> int" where
  "compare_files a b =
     (case (parseInt_auto (split_first (CHR ''.'') a), parseInt_auto (split_first (CHR ''.'') b)) of
        (Some numA, Some numB) \<Rightarrow> numA - numB
      | _ \<Rightarrow> 0)"

text \<open>\<^verbatim>\<open>Array.prototype.sort\<close> with a comparator, as a stable insertion sort (the
  result of any stable sort when the comparator is consistent).\<close>

fun insert_by :: "('a \<Rightarrow> 'a \<Rightarrow> int) \<Rightarrow> 'a \<Rightarrow> 'a list \<Rightarrow> 'a list" where
  "insert_by cmp x [] = [x]"
| "insert_by cmp x (y # ys) = (if cmp x y \<le> 0 then x # y # ys else y # insert_by cmp x ys)"

definition sort_by :: "('a \<Rightarrow> 'a \<Rightarrow> int) \<Rightarrow> 'a list \<Rightarrow> 'a list" where
  "sort_by cmp xs = foldr (insert_by cmp) xs []"

text \<open>The configuration and the two directories as the function reads them:
  \<^verbatim>\<open>SPECIFIC_FILE\<close>, \<^verbatim>\<open>RESUME_MODE\<close>, the entries of the input and of the output
  directory, and \<^verbatim>\<open>fs.existsSync\<close> on a name joined to the input directory.\<close>

record batch_env =
  specific_file :: "string option"
  resume_mode :: bool
  input_entries :: "string list"
  output_entries :: "string list"
  input_exists :: "string \<Rightarrow> bool"

definition allFiles :: "batch_env \<Rightarrow> string list" where
  "allFiles env =
     sort_by compare_files (filter (\<lambda>file. endsWith file ''.jsonl.gz'') (input_entries env))"

text \<open>The names collected in \<^verbatim>\<open>processedFiles\<close>.\<close>

definition processedFiles :: "batch_env \<Rightarrow> string list" where
  "processedFiles env =
     map (\<lambda>file. split_first (CHR ''_'') file @ ''.jsonl.gz'')
       (filter (\<lambda>file. endsWith file ''_processed.jsonl.gz'') (output_entries env))"

definition getFilesToProcess :: "batch_env \<Rightarrow> string list" where
  "getFilesToProcess env =
     (case specific_file env of
        Some requested \<Rightarrow>
          (let file = basename requested
           in if input_exists env file then [file] else [])
      | None \<Rightarrow>
          if resume_mode env
          then filter (\<lambda>file. file \<notin> set (processedFiles env)) (allFiles env)
          else allFiles env)"

section \<open>Notions used to state the properties\<close>

text \<open>The property list of an object value.\<close>

fun fields :: "json \<Rightarrow> (string \<times> json) list" where
  "fields (JObj obj) = obj"
| "fields v = []"







text \<open>A stand-in for \<^verbatim>\<open>JSON.parse\<close> that knows two texts, to instantiate the
  properties that hold for every parser.\<close>

definition sample_parse :: "string \<Rightarrow> string + json" where
  "sample_parse s =
     (if s = ''{}'' then Inr (JObj [])
      else if s = ''[1]'' then Inr (JArr [JNum 1])
      else Inl ''Unexpected token'')"

text \<open>A batch in resume mode with a specific file requested: the input directory holds
  \<^verbatim>\<open>3.jsonl.gz\<close> and \<^verbatim>\<open>10.jsonl.gz\<close>, the output directory
  \<^verbatim>\<open>3_processed.jsonl.gz\<close>.\<close>

definition sample_env :: batch_env where
  "sample_env = \<lparr>specific_file = Some ''3.jsonl.gz'', resume_mode = True,
      input_entries = [''3.jsonl.gz'', ''10.jsonl.gz''],
      output_entries = [''3_processed.jsonl.gz''],
      input_exists = (\<lambda>file. file \<in> set [''3.jsonl.gz'', ''10.jsonl.gz''])\<rparr>"

text \<open>Two ways an artifact can read back: one chunk of data and the end; or one chunk of
  data and then a decompression error.\<close>

definition sample_read_back :: "string option \<Rightarrow> gz_event list" where
  "sample_read_back content = [Data, End]"

definition corrupt_read_back :: "string option \<Rightarrow> gz_event list" where
  "corrupt_read_back content = [Data, GunzipFailed ''unexpected end of file'']"





text \<open>What the loop over the date fields leaves under a field's key, given what was
  there (\<open>None\<close>: no such property).\<close>

definition date_field_result :: "json option \<Rightarrow> json option" where
  "date_field_result v =
     (case v of
        Some (JObj fieldObj) \<Rightarrow>
          (case obj_get fieldObj ''date-parts'' of
             Some dateParts \<Rightarrow>
               if truthy dateParts then map_option JStr (iso_of_date_parts dateParts) else v
           | None \<Rightarrow> v)
      | _ \<Rightarrow> v)"

section \<open>Properties\<close>

subsection \<open>Objects\<close>

lemma obj_keys_simps [simp]:
  "obj_keys [] = []"
  "obj_keys (p # ps) = fst p # obj_keys ps"
  "obj_keys (ps @ qs) = obj_keys ps @ obj_keys qs"
  by (simp_all add: obj_keys_def)









lemma obj_get_set: "obj_get (obj_set obj k v) k' = (if k' = k then Some v else obj_get obj k')"
  by (induction obj) auto

lemma obj_get_del: "obj_get (obj_del obj k) k' = (if k' = k then None else obj_get obj k')"
  by (induction obj) (auto simp: obj_del_def)

lemma obj_get_map:
  "obj_get (map (\<lambda>(key, v). (key, f v)) obj) k = map_option f (obj_get obj k)"
  by (induction obj) auto

lemma obj_keys_map [simp]: "obj_keys (map (\<lambda>(key, v). (key, f v)) obj) = obj_keys obj"
  by (induction obj) auto




subsection \<open>Digits and integers\<close>




lemma show_nat_digit: "n < 10 \<Longrightarrow> show_nat n = [digit_char n]"
  by (simp add: show_nat.simps)









subsection \<open>Dates\<close>




lemma obj_get_date_parts_step:
  "obj_get (date_parts_step obj) k =
     (case obj_get obj ''date-parts'' of
        None \<Rightarrow> obj_get obj k
      | Some dateParts \<Rightarrow>
          if k = ''date-parts'' then None
          else if k = ''date'' then
            (case iso_of_date_parts dateParts of
               Some isoDate \<Rightarrow> Some (JStr isoDate)
             | None \<Rightarrow> obj_get obj ''date'')
          else obj_get obj k)"
  by (simp add: date_parts_step_def obj_get_set obj_get_del split: option.splits)

lemma obj_get_date_field_step:
  "obj_get (date_field_step obj field) k =
     (if k = field then date_field_result (obj_get obj field) else obj_get obj k)"
  by (simp add: date_field_step_def date_field_result_def obj_get_set obj_get_del
      split: option.splits json.splits)

lemma obj_get_date_fields:
  "distinct fs \<Longrightarrow>
   obj_get (foldl date_field_step obj fs) k =
     (if k \<in> set fs then date_field_result (obj_get obj k) else obj_get obj k)"
proof (induction fs arbitrary: obj)
  case Nil
  show ?case by simp
next
  case (Cons f fs)
  then have "distinct fs" and nf: "f \<notin> set fs" by simp_all
  from Cons.IH[OF this(1), of "date_field_step obj f"] nf show ?case
    by (auto simp: obj_get_date_field_step)
qed

lemma obj_get_license_dates:
  "obj_get (license_dates obj) k =
     (if k = ''license'' then
        (case obj_get obj ''license'' of
           Some (JArr licenses) \<Rightarrow> Some (JArr (map license_step licenses))
         | v \<Rightarrow> v)
      else obj_get obj k)"
  by (simp add: license_dates_def obj_get_set split: option.splits json.splits)

lemma distinct_dateFields: "distinct dateFields"
  by (simp add: dateFields_def)

lemma obj_get_date_local:
  "obj_get (date_local obj) k =
     (if k = ''license'' then
        (case obj_get (date_parts_step obj) ''license'' of
           Some (JArr licenses) \<Rightarrow> Some (JArr (map license_step licenses))
         | v \<Rightarrow> v)
      else if k \<in> set dateFields then date_field_result (obj_get (date_parts_step obj) k)
      else obj_get (date_parts_step obj) k)"
proof -
  have "''license'' \<notin> set dateFields" by (simp add: dateFields_def)
  then show ?thesis
    by (simp add: date_local_def obj_get_license_dates
        obj_get_date_fields[OF distinct_dateFields])
qed

lemma obj_get_processDateFields:
  "obj_get (map (\<lambda>(key, v). (key, processDateFields v)) (date_local obj)) k
     = map_option processDateFields (obj_get (date_local obj) k)"
  by (rule obj_get_map)

lemma obj_keys_get: "k \<in> set (obj_keys obj) \<longleftrightarrow> obj_get obj k \<noteq> None"
  by (induction obj) auto




lemma license_entry:
  assumes "obj_get obj ''license'' = Some (JArr licenses)" "i < length licenses"
  shows "\<exists>licenses'. obj_get (fields (processDateFields (JObj obj))) ''license'' = Some (JArr licenses')
           \<and> length licenses' = length licenses
           \<and> licenses' ! i = processDateFields (license_step (licenses ! i))"
proof -
  have "obj_get (date_parts_step obj) ''license'' = Some (JArr licenses)"
    using assms(1) by (simp add: obj_get_date_parts_step split: option.splits)
  then have "obj_get (fields (processDateFields (JObj obj))) ''license''
      = Some (JArr (map processDateFields (map license_step licenses)))"
    by (simp add: obj_get_processDateFields obj_get_date_local)
  then show ?thesis using assms(2) by simp
qed






subsection \<open>Null cleaning\<close>



subsection \<open>The year property\<close>






subsection \<open>Lines of a file\<close>







subsection \<open>Resume mode\<close>

lemma set_insert_by: "set (insert_by cmp x xs) = insert x (set xs)"
  by (induction xs) auto

lemma set_sort_by: "set (sort_by cmp xs) = set xs"
  by (induction xs) (auto simp: sort_by_def set_insert_by)

lemma split_first_append:
  "sep \<notin> set n \<Longrightarrow> split_first sep (n @ sep # rest) = n"
  by (induction n) (auto simp: split_first_def)

lemma endsWith_append: "endsWith (n @ s) s"
  by (simp add: endsWith_def)

lemma digits_no_underscore: "all_digits n \<Longrightarrow> CHR ''_'' \<notin> set n"
  by (auto simp: all_digits_def list_all_iff is_digit_def)

text \<open>
  Claim C8, as the code has it. In resume mode and with no specific file requested, for
  every ordinal \<open>n\<close> (a run of digits) such that the output directory holds
  \<^verbatim>\<open><n>_processed.jsonl.gz\<close>, the file \<^verbatim>\<open><n>.jsonl.gz\<close> is not in the list of files
  to process, which is the list \<^verbatim>\<open>processFiles\<close> takes its jobs from. The list is a
  function of the configuration and of the two directory listings alone.
\<close>

theorem resume_skips_processed:
  assumes "specific_file env = None" and "resume_mode env" and "all_digits n"
    and "n @ ''_processed.jsonl.gz'' \<in> set (output_entries env)"
  shows "n @ ''.jsonl.gz'' \<notin> set (getFilesToProcess env)"
proof -
  have "split_first (CHR ''_'') (n @ ''_processed.jsonl.gz'') = n"
    using split_first_append[OF digits_no_underscore[OF assms(3)], of "''processed.jsonl.gz''"]
    by simp
  moreover have "endsWith (n @ ''_processed.jsonl.gz'') ''_processed.jsonl.gz''"
    by (rule endsWith_append)
  ultimately have "n @ ''.jsonl.gz'' \<in> set (processedFiles env)"
    using assms(4) by (force simp: processedFiles_def)
  then show ?thesis
    using assms(1,2) by (simp add: getFilesToProcess_def)
qed

theorem resume_skips_processed_witness:
  "specific_file (sample_env\<lparr>specific_file := None\<rparr>) = None
   \<and> resume_mode (sample_env\<lparr>specific_file := None\<rparr>)
   \<and> all_digits ''3''
   \<and> ''3_processed.jsonl.gz'' \<in> set (output_entries (sample_env\<lparr>specific_file := None\<rparr>))
   \<and> ''3.jsonl.gz'' \<notin> set (getFilesToProcess (sample_env\<lparr>specific_file := None\<rparr>))"
  using resume_skips_processed[of "sample_env\<lparr>specific_file := None\<rparr>" "''3''"]
  by (simp add: sample_env_def all_digits_def is_digit_def)

text \<open>
  Claim C8, as stated, fails when a specific file is requested: the request is answered
  before resume mode is looked at, so the file is processed again although its output
  exists.
\<close>

theorem resume_specific_file_counterexample:
  "resume_mode sample_env
   \<and> ''3_processed.jsonl.gz'' \<in> set (output_entries sample_env)
   \<and> ''3.jsonl.gz'' \<in> set (getFilesToProcess sample_env)"
  by (simp add: sample_env_def getFilesToProcess_def basename_def)

subsection \<open>Debug mode\<close>

lemma transform_debug_independent:
  "processedCount st = processedCount st' \<Longrightarrow> errorCount st = errorCount st' \<Longrightarrow>
   pushed st = pushed st' \<Longrightarrow>
   processedCount (transform True parse st line) = processedCount (transform False parse st' line)
   \<and> errorCount (transform True parse st line) = errorCount (transform False parse st' line)
   \<and> pushed (transform True parse st line) = pushed (transform False parse st' line)"
  by (simp add: transform_def Let_def split: sum.splits)

lemma process_lines_debug_independent:
  "processedCount st = processedCount st' \<Longrightarrow> errorCount st = errorCount st' \<Longrightarrow>
   pushed st = pushed st' \<Longrightarrow>
   processedCount (process_lines True parse st lines) = processedCount (process_lines False parse st' lines)
   \<and> errorCount (process_lines True parse st lines) = errorCount (process_lines False parse st' lines)
   \<and> pushed (process_lines True parse st lines) = pushed (process_lines False parse st' lines)"
proof (induction lines arbitrary: st st')
  case Nil
  then show ?case by (simp add: process_lines_def)
next
  case (Cons l lines)
  from transform_debug_independent[OF Cons.prems, of parse l]
  have "processedCount (transform True parse st l) = processedCount (transform False parse st' l)"
    "errorCount (transform True parse st l) = errorCount (transform False parse st' l)"
    "pushed (transform True parse st l) = pushed (transform False parse st' l)"
    by simp_all
  from Cons.IH[OF this] show ?case by (simp add: process_lines_def)
qed

lemma processJsonlFile_debug_independent:
  "promise (processJsonlFile inputPath True parse lines e)
     = promise (processJsonlFile inputPath False parse lines e)
   \<and> artifact (processJsonlFile inputPath True parse lines e)
     = artifact (processJsonlFile inputPath False parse lines e)"
proof -
  let ?s1 = "init_state\<lparr>debugLog := [''Debug log for '' @ inputPath @ [CHR 0x0A]]\<rparr>"
  let ?s0 = "init_state\<lparr>debugLog := []\<rparr>"
  have "processedCount (process_lines True parse ?s1 lines) = processedCount (process_lines False parse ?s0 lines)
   \<and> errorCount (process_lines True parse ?s1 lines) = errorCount (process_lines False parse ?s0 lines)
   \<and> pushed (process_lines True parse ?s1 lines) = pushed (process_lines False parse ?s0 lines)"
    by (rule process_lines_debug_independent) simp_all
  then show ?thesis
    by (simp add: processJsonlFile_def Let_def split: ending.splits)
qed

lemma validate_data_prefix:
  "list_all (\<lambda>x. x = Data) ds \<Longrightarrow>
   validate_events True dr (ds @ rest) = validate_events True (dr \<or> ds \<noteq> []) rest"
  by (induction ds arbitrary: dr) auto

lemma validate_agree:
  assumes "list_all (\<lambda>x. x = Data) ds" "ev \<noteq> Data" "ds = [] \<or> ev = End"
  shows "validateGzipFile True (ds @ ev # rest) = validateGzipFile False (ds @ ev # rest)"
proof (cases ds)
  case Nil
  then show ?thesis using assms(2) by (cases ev) (simp_all add: validateGzipFile_def)
next
  case (Cons d ds')
  with assms have ev: "ev = End" and d: "d = Data" by auto
  have "validateGzipFile True (ds @ ev # rest) = Pass"
    unfolding validateGzipFile_def using validate_data_prefix[OF assms(1), of False "ev # rest"] Cons ev
    by simp
  moreover have "validateGzipFile False (ds @ ev # rest) = Pass"
    using Cons d by (simp add: validateGzipFile_def)
  ultimately show ?thesis by simp
qed

text \<open>
  Claim C9, as the code has it. For the same lines and the same ending of the run, the
  way the promise of \<^verbatim>\<open>processJsonlFile\<close> ends (the counts, or the rejection) and the
  written artifact do not depend on the debug flag.
  The result of the job is the same with and without debug mode when reading the
  artifact back fails or ends before any data, or gives data and then ends without an
  error.
\<close>

theorem debug_mode_outcome:
  assumes "read_back (artifact (processJsonlFile inputPath False parse lines e)) = ds @ ev # rest"
    and "list_all (\<lambda>x. x = Data) ds" and "ev \<noteq> Data" and "ds = [] \<or> ev = End"
  shows "promise (processJsonlFile inputPath True parse lines e)
           = promise (processJsonlFile inputPath False parse lines e)
       \<and> artifact (processJsonlFile inputPath True parse lines e)
           = artifact (processJsonlFile inputPath False parse lines e)
       \<and> processFile True parse read_back inputPath lines e
           = processFile False parse read_back inputPath lines e"
proof -
  have p: "promise (processJsonlFile inputPath True parse lines e)
             = promise (processJsonlFile inputPath False parse lines e)"
    and a: "artifact (processJsonlFile inputPath True parse lines e)
             = artifact (processJsonlFile inputPath False parse lines e)"
    using processJsonlFile_debug_independent[of inputPath parse lines e] by simp_all
  have v: "validateGzipFile True (read_back (artifact (processJsonlFile inputPath False parse lines e)))
         = validateGzipFile False (read_back (artifact (processJsonlFile inputPath False parse lines e)))"
    unfolding assms(1) by (rule validate_agree[OF assms(2,3,4)])
  have "processFile True parse read_back inputPath lines e
           = processFile False parse read_back inputPath lines e"
    unfolding processFile_def Let_def p a v by (rule refl)
  with p a show ?thesis by simp
qed

theorem debug_mode_outcome_witness:
  "sample_read_back (artifact (processJsonlFile ''1.jsonl.gz'' False sample_parse [''{}''] Completed))
     = [Data] @ End # []
   \<and> list_all (\<lambda>x. x = Data) [Data] \<and> End \<noteq> Data \<and> ([Data] = [] \<or> End = End)
   \<and> processFile True sample_parse sample_read_back ''1.jsonl.gz'' [''{}''] Completed
       = processFile False sample_parse sample_read_back ''1.jsonl.gz'' [''{}''] Completed
   \<and> job_result (processFile False sample_parse sample_read_back ''1.jsonl.gz'' [''{}''] Completed)
       = Succeeded 1 0"
  using debug_mode_outcome[of sample_read_back "''1.jsonl.gz''" sample_parse "[''{}'']" Completed
      "[Data]" End "[]"]
  by (simp add: sample_read_back_def processFile_def processJsonlFile_def process_lines_def
      transform_def sample_parse_def trim_def is_space_def init_state_def Let_def
      validateGzipFile_def)

text \<open>
  Claim C9, as stated, fails for an artifact that reads back as data followed by a
  decompression error: without debug mode the validation resolves at the first data and
  the job succeeds, in debug mode it reads on and the job fails.
\<close>

theorem debug_mode_outcome_counterexample:
  "job_result (processFile False sample_parse corrupt_read_back ''1.jsonl.gz'' [''{}''] Completed)
     = Succeeded 1 0
   \<and> job_result (processFile True sample_parse corrupt_read_back ''1.jsonl.gz'' [''{}''] Completed)
     = Failed"
  by (simp add: corrupt_read_back_def processFile_def processJsonlFile_def process_lines_def
      transform_def sample_parse_def trim_def is_space_def init_state_def Let_def
      validateGzipFile_def)

subsection \<open>Nested arrays\<close>

text \<open>
  Claim C2 at the record \<^verbatim>\<open>{"x":[1,[[2]]]}\<close>. The flattening pass concatenates one
  level and then flattens inside each item, which leaves the item \<^verbatim>\<open>[2]\<close> an array
  within the array; the serialized text \<^verbatim>\<open>{"x":[1,[2]]}\<close> does not contain \<^verbatim>\<open>[[\<close>,
  so the corrective pass does not run. The written record holds an array whose element
  is an array.
\<close>

theorem nested_array_survives:
  "output_record (JObj [(''x'', JArr [JNum 1, JArr [JArr [JNum 2]]])])
     = JObj [(''x'', JArr [JNum 1, JArr [JNum 2]])]
   \<and> has_nested_array (output_record (JObj [(''x'', JArr [JNum 1, JArr [JArr [JNum 2]]])]))"
  by (simp add: output_record_def standardize_def Let_def date_local_def date_parts_step_def
      dateFields_def date_field_step_def license_dates_def fix_year_def replace_dashes_def
      quote_json_def escape_char_def show_int_def show_nat_digit digit_char_def startsWith_def)

text \<open>Where the corrective pass does run, it removes one level and goes on inside the
  items: five levels of nesting leave two.\<close>

lemma deep_nesting_survives_corrective_pass:
  "output_record (JArr [JArr [JArr [JArr [JArr [JNum 1]]]]]) = JArr [JArr [JNum 1]]"
  by (simp add: output_record_def standardize_def Let_def
      quote_json_def escape_char_def show_int_def show_nat_digit digit_char_def startsWith_def)

text \<open>
  Claim C5 at the same record. Its output \<^verbatim>\<open>{"x":[1,[2]]}\<close> is not a fixed point of the
  pipeline: a second application flattens the remaining level and gives
  \<^verbatim>\<open>{"x":[1,2]}\<close>, with the corrective pass and without it.
\<close>

theorem pipeline_not_idempotent:
  "output_record (output_record (JObj [(''x'', JArr [JNum 1, JArr [JArr [JNum 2]]])]))
     = JObj [(''x'', JArr [JNum 1, JNum 2])]
   \<and> output_record (output_record (JObj [(''x'', JArr [JNum 1, JArr [JArr [JNum 2]]])]))
     \<noteq> output_record (JObj [(''x'', JArr [JNum 1, JArr [JArr [JNum 2]]])])
   \<and> standardize (standardize (JObj [(''x'', JArr [JNum 1, JArr [JArr [JNum 2]]])]))
     \<noteq> standardize (JObj [(''x'', JArr [JNum 1, JArr [JArr [JNum 2]]])])"
  by (simp add: output_record_def standardize_def Let_def date_local_def date_parts_step_def
      dateFields_def date_field_step_def license_dates_def fix_year_def replace_dashes_def
      quote_json_def escape_char_def show_int_def show_nat_digit digit_char_def startsWith_def)

subsection \<open>Stream errors\<close>

text \<open>An error that reaches one of the registered handlers (the callback of
  \<^verbatim>\<open>pipeline\<close>, the listener on \<^verbatim>\<open>inputStream\<close>, the listener on readline) rejects
  the promise, and after \<^verbatim>\<open>processFile\<close> the artifact is gone: removed by the pipeline
  callback, or by the \<^verbatim>\<open>catch\<close> block of \<^verbatim>\<open>processFile\<close>. Lines that fail to parse
  never reject it: they only count.\<close>

lemma handled_stream_errors:
  "s \<in> set pipeline_streams \<or> s = inputStream inputPath \<or> s = Readline \<Longrightarrow>
   (\<exists>m. promise (processJsonlFile inputPath debugMode parse lines (StreamError s message))
           = Rejected m)
   \<and> job_result (processFile debugMode parse read_back inputPath lines (StreamError s message))
       = Failed
   \<and> job_artifact (processFile debugMode parse read_back inputPath lines (StreamError s message))
       = None"
  by (auto simp: processFile_def processJsonlFile_def Let_def)

text \<open>
  Claim C7 at a read failure of a \<^verbatim>\<open>.gz\<close> source. The input error listener is on the
  gunzip stream that \<^verbatim>\<open>pipe\<close> returns; the file read stream has no listener, so its
  \<^verbatim>\<open>error\<close> is thrown as an uncaught exception: the promise is not rejected, the
  \<^verbatim>\<open>catch\<close> block of \<^verbatim>\<open>processFile\<close> does not run, and the partial artifact stays.
\<close>

theorem unhandled_read_error:
  "promise (processJsonlFile ''3.jsonl.gz'' False sample_parse [''{}''] (StreamError FileRead ''EIO''))
     = Uncaught ''EIO''
   \<and> artifact (processJsonlFile ''3.jsonl.gz'' False sample_parse [''{}''] (StreamError FileRead ''EIO''))
     \<noteq> None
   \<and> job_result (processFile False sample_parse sample_read_back ''3.jsonl.gz'' [''{}'']
        (StreamError FileRead ''EIO'')) = Crashed
   \<and> job_artifact (processFile False sample_parse sample_read_back ''3.jsonl.gz'' [''{}'']
        (StreamError FileRead ''EIO'')) \<noteq> None"
  by (simp add: processFile_def processJsonlFile_def inputStream_def endsWith_def
      pipeline_streams_def Let_def)

subsection \<open>Key renaming\<close>

text \<open>
  Claim C10. There is an object with two distinct keys that become equal when every
  hyphen is replaced by an underscore (\<^verbatim>\<open>a-b\<close> and \<^verbatim>\<open>a_b\<close>): the renaming pass keeps
  one property, with the value enumerated last, and the other value is lost, so the
  result has fewer properties than the input.
\<close>

theorem replaceKeyDashes_collision:
  "''a-b'' \<noteq> ''a_b''
   \<and> replace_dashes ''a-b'' = replace_dashes ''a_b''
   \<and> replaceKeyDashes (JObj [(''a-b'', JNum 1), (''a_b'', JNum 2)]) = JObj [(''a_b'', JNum 2)]
   \<and> length (fields (replaceKeyDashes (JObj [(''a-b'', JNum 1), (''a_b'', JNum 2)])))
       < length [(''a-b'', JNum 1), (''a_b'', JNum 2)]"
  by (simp add: replace_dashes_def)


end
